theory Spec2Isabelle
  imports Main "HOL-Library.Word" "HOL-Library.Multiset"
begin

section \<open>The dispute game state (package types)\<close>

text \<open>
  The file declares \<open>gameState\<close> and its methods. The struct \<open>Claim\<close>, its methods
  \<open>IsRoot\<close> and \<open>RightOf\<close>, and \<open>Position.TraceIndex\<close> are declared in another file of
  the package. The claim type is therefore a type variable \<open>'c\<close>, positions are \<open>'p\<close>,
  depths are \<open>'d\<close>, and everything the methods below use of a claim is a field of
  \<open>claim_api\<close>, passed as the first argument:
  \<^item> \<open>IsRoot c\<close> is \<^verbatim>\<open>c.IsRoot()\<close>;
  \<^item> \<open>ParentContractIndex c\<close> is the field \<^verbatim>\<open>c.ParentContractIndex\<close>, a Go \<^verbatim>\<open>int\<close>
    (it is only compared, never computed with, so it is an \<open>int\<close> here);
  \<^item> \<open>Position c\<close> is the field \<^verbatim>\<open>c.Position\<close>;
  \<^item> \<open>RightOf c p\<close> is \<^verbatim>\<open>c.RightOf(p)\<close>;
  \<^item> \<open>TraceIndex p d\<close> is \<^verbatim>\<open>p.TraceIndex(d)\<close>, a \<^verbatim>\<open>*big.Int\<close>, so an \<open>int\<close>;
  \<^item> \<open>EmptyClaim\<close> is the zero value \<^verbatim>\<open>Claim{}\<close>.
\<close>

record ('c, 'p, 'd) claim_api =
  IsRoot :: "'c \<Rightarrow> bool"
  ParentContractIndex :: "'c \<Rightarrow> int"
  Position :: "'c \<Rightarrow> 'p"
  RightOf :: "'c \<Rightarrow> 'p \<Rightarrow> bool"
  TraceIndex :: "'p \<Rightarrow> 'd \<Rightarrow> int"
  EmptyClaim :: "'c"

datatype error = ErrClaimNotFound

text \<open>
  \<^verbatim>\<open>type gameState struct { claims []Claim; claimIDs map[claimID]bool; depth Depth }\<close>.
  A Go map to \<^verbatim>\<open>bool\<close> reads \<^verbatim>\<open>false\<close> at a missing key, so \<open>claimIDs\<close> is a
  predicate on the identifiers \<open>'h\<close>.
\<close>

record ('c, 'h, 'd) gameState =
  claims :: "'c list"
  claimIDs :: "'h \<Rightarrow> bool"
  depth :: "'d"

text \<open>
  \<^verbatim>\<open>getParent\<close> returns a pointer: \<^verbatim>\<open>nil\<close> is \<open>None\<close>, and \<^verbatim>\<open>&parent\<close> points to a
  copy of the list element, so it is \<open>Some\<close> of that element. The index expression
  \<^verbatim>\<open>g.claims[claim.ParentContractIndex]\<close> is evaluated only after the range check.
\<close>

definition getParent ::
  "('c, 'p, 'd) claim_api \<Rightarrow> ('c, 'h, 'd) gameState \<Rightarrow> 'c \<Rightarrow> 'c option" where
  "getParent api g claim =
     (if IsRoot api claim then None
      else if ParentContractIndex api claim \<ge> int (length (claims g))
              \<or> ParentContractIndex api claim < 0 then None
      else Some (claims g ! nat (ParentContractIndex api claim)))"

text \<open>\<^verbatim>\<open>GetParent\<close> returns the pair \<^verbatim>\<open>(Claim, error)\<close>; the \<^verbatim>\<open>nil\<close> error is \<open>None\<close>.\<close>

definition GetParent ::
  "('c, 'p, 'd) claim_api \<Rightarrow> ('c, 'h, 'd) gameState \<Rightarrow> 'c \<Rightarrow> 'c \<times> error option" where
  "GetParent api g claim =
     (case getParent api g claim of
        None \<Rightarrow> (EmptyClaim api, Some ErrClaimNotFound)
      | Some parent \<Rightarrow> (parent, None))"

definition DefendsParent ::
  "('c, 'p, 'd) claim_api \<Rightarrow> ('c, 'h, 'd) gameState \<Rightarrow> 'c \<Rightarrow> bool" where
  "DefendsParent api g claim =
     (case getParent api g claim of
        None \<Rightarrow> False
      | Some parent \<Rightarrow> RightOf api claim (Position api parent))"

text \<open>
  \<^verbatim>\<open>AncestorWithTraceIndex\<close> is a \<^verbatim>\<open>for { ... }\<close> loop with no bound of its own, so it
  is a partial function: \<open>None\<close> is the loop that never returns, \<open>Some r\<close> is the
  returned pair \<^verbatim>\<open>(Claim, bool)\<close>.
\<close>

partial_function (option) AncestorWithTraceIndex ::
  "('c, 'p, 'd) claim_api \<Rightarrow> ('c, 'h, 'd) gameState \<Rightarrow> 'c \<Rightarrow> int \<Rightarrow> ('c \<times> bool) option" where
  "AncestorWithTraceIndex api g claim idx =
     (if TraceIndex api (Position api claim) (depth g) = idx then Some (claim, True)
      else if IsRoot api claim then Some (EmptyClaim api, False)
      else (case getParent api g claim of
              None \<Rightarrow> Some (EmptyClaim api, False)
            | Some next \<Rightarrow> AncestorWithTraceIndex api g next idx))"


subsection \<open>The parent chain, as a list\<close>

text \<open>
  The chain of a claim is the claim itself, then its parent, then the parent's parent,
  and so on, until a root claim or a claim whose \<open>ParentContractIndex\<close> is outside the
  claims list. \<open>parentChain api cs n c\<close> follows at most \<open>n\<close> parent links.
  \<open>parentsPrecede\<close> says that every claim of the list has a \<open>ParentContractIndex\<close>
  strictly smaller than its own index, and \<open>firstWithTraceIndex\<close> picks the first claim
  of a chain whose trace index at depth \<open>d\<close> is \<open>idx\<close>.
\<close>

definition parentsPrecede :: "('c, 'p, 'd) claim_api \<Rightarrow> 'c list \<Rightarrow> bool" where
  "parentsPrecede api cs = (\<forall>i < length cs. ParentContractIndex api (cs ! i) < int i)"

fun parentChain :: "('c, 'p, 'd) claim_api \<Rightarrow> 'c list \<Rightarrow> nat \<Rightarrow> 'c \<Rightarrow> 'c list" where
  "parentChain api cs 0 c = [c]"
| "parentChain api cs (Suc n) c =
     (if IsRoot api c \<or> ParentContractIndex api c < 0
         \<or> ParentContractIndex api c \<ge> int (length cs) then [c]
      else c # parentChain api cs n (cs ! nat (ParentContractIndex api c)))"

definition firstWithTraceIndex ::
  "('c, 'p, 'd) claim_api \<Rightarrow> 'd \<Rightarrow> int \<Rightarrow> 'c list \<Rightarrow> 'c \<times> bool" where
  "firstWithTraceIndex api d idx chain =
     (case find (\<lambda>c. TraceIndex api (Position api c) d = idx) chain of
        Some c \<Rightarrow> (c, True)
      | None \<Rightarrow> (EmptyClaim api, False))"

text \<open>
  A small game for concrete runs: a claim is a pair of its position and its
  \<open>ParentContractIndex\<close>; the root is the claim at position 1; the trace index of a
  position is the position itself.
\<close>

definition exampleApi :: "(int \<times> int, int, nat) claim_api" where
  "exampleApi =
     \<lparr>IsRoot = (\<lambda>c. fst c = 1), ParentContractIndex = snd, Position = fst,
      RightOf = (\<lambda>c p. p < fst c), TraceIndex = (\<lambda>p d. p), EmptyClaim = (0, 0)\<rparr>"

definition exampleGame :: "(int \<times> int, nat, nat) gameState" where
  "exampleGame = \<lparr>claims = [(1, - 1), (2, 0), (4, 1)], claimIDs = (\<lambda>h. False), depth = 3\<rparr>"

section \<open>The transaction queue (package txmgr)\<close>

subsection \<open>Values the queue handles\<close>

text \<open>
  Contexts, errgroup groups and receipt channels are objects the queue holds by reference;
  a reference is a number. The types of the identifier \<open>'id\<close> (the type parameter \<open>T\<close>),
  of the candidate \<open>'c\<close> (\<open>TxCandidate\<close>), of the receipt \<open>'r\<close> (\<open>*types.Receipt\<close>) and of
  a non-nil error \<open>'e\<close> are left open; a Go \<open>error\<close> is an \<open>'e option\<close>, \<open>None\<close> for nil.
\<close>

type_synonym Context = nat
type_synonym GroupRef = nat
type_synonym Chan = nat

record ('id, 'r, 'e) TxReceipt =
  ID :: 'id
  Receipt :: 'r
  Err :: "'e option"

text \<open>
  A call either returns a value, or has not returned because it waits for other
  goroutines (\<open>Block\<close>), or panics. Every operation maps a state to an outcome and the
  state reached at that point; \<open>andThen\<close> runs the rest of a function body after a call
  that returned, and stops at a call that did not.
\<close>

datatype 'a outcome = Return 'a | Block | Panic

definition andThen ::
  "'a outcome \<times> 's \<Rightarrow> ('a \<Rightarrow> 's \<Rightarrow> 'b outcome \<times> 's) \<Rightarrow> 'b outcome \<times> 's" where
  "andThen m f =
     (case m of
        (Return a, s) \<Rightarrow> f a s
      | (Block, s) \<Rightarrow> (Block, s)
      | (Panic, s) \<Rightarrow> (Panic, s))"

subsection \<open>The Queue struct and NewQueue\<close>

text \<open>
  The fields of \<open>Queue\<close>, in the order of the struct. \<open>txMgr\<close> is the \<open>Send\<close> method of
  the \<open>TxManager\<close> interface, which is declared in another file: it is any function of
  the context and the candidate, and \<open>None\<close> is a call that does not return.
  \<open>receiptWg\<close> is the counter of the \<open>sync.WaitGroup\<close> and \<open>pending\<close> the value of the
  \<open>atomic.Uint64\<close>. The callback \<open>pendingChanged\<close> is not a field here: each of its calls
  is recorded as an event (below). \<open>groupLock\<close> is held for the whole of \<open>groupContext\<close>,
  which is one step here.
\<close>

record ('c, 'r, 'e) Queue =
  ctx :: Context
  txMgr :: "Context \<Rightarrow> 'c \<Rightarrow> ('r \<times> 'e option) option"
  maxPending :: "64 word"
  receiptWg :: nat
  pending :: "64 word"
  groupCtx :: "Context option"
  group :: "GroupRef option"

text \<open>
  Go's \<open>int\<close> has 32 or 64 bits, by platform: \<open>intSize\<close>. \<open>math.MaxInt\<close> is the largest
  \<open>int\<close>, and the conversion \<open>int(x)\<close> of a \<open>uint64\<close> keeps the low \<open>intSize\<close> bits and
  reads them as two's complement.
\<close>

definition math_MaxInt :: "nat \<Rightarrow> int" where
  "math_MaxInt intSize = 2 ^ (intSize - 1) - 1"

definition int_of_uint64 :: "nat \<Rightarrow> 64 word \<Rightarrow> int" where
  "int_of_uint64 intSize x = signed_take_bit (intSize - 1) (uint x)"

text \<open>
  \<open>NewQueue\<close> has no error result. The fields it does not set have their zero values.
  Its last parameter, the callback \<open>pendingChanged\<close>, is left out with the field.
\<close>

definition NewQueue ::
  "nat \<Rightarrow> Context \<Rightarrow> (Context \<Rightarrow> 'c \<Rightarrow> ('r \<times> 'e option) option) \<Rightarrow> 64 word
     \<Rightarrow> ('c, 'r, 'e) Queue" where
  "NewQueue intSize ctx0 txMgr0 maxPending0 =
     (let maxPending1 =
            (if maxPending0 > word_of_int (math_MaxInt intSize)
             then word_of_int (math_MaxInt intSize) else maxPending0)
      in \<lparr>ctx = ctx0, txMgr = txMgr0, maxPending = maxPending1, receiptWg = 0,
          pending = 0, groupCtx = None, group = None\<rparr>)"

subsection \<open>The runtime objects the queue points to\<close>

text \<open>
  \<open>errgroup.Group\<close> (golang.org/x/sync/errgroup) is a library outside the repository.
  Its model keeps what its documentation states and the queue relies on: the context the
  group cancels (\<open>gctx\<close>), the limit set by \<open>SetLimit\<close> (\<open>None\<close>: no limit), and the number
  of goroutines started by \<open>Go\<close> or \<open>TryGo\<close> that have not returned yet (\<open>active\<close>).
\<close>

record Group =
  gctx :: Context
  limit :: "nat option"
  active :: nat

text \<open>
  What the queue does to the outside is recorded, in order, as events:
  a call of the callback \<open>pendingChanged(n)\<close>; a call of \<open>txMgr.Send(ctx, candidate)\<close>;
  the start, by a group, of a goroutine that runs
  \<open>sendTx(ctx, id, candidate, receiptCh)\<close>; and the \<open>go\<close> statement of \<open>sendTx\<close>, which
  starts the goroutine that writes the receipt to \<open>receiptCh\<close> and then calls
  \<open>receiptWg.Done()\<close>; and, in that goroutine, the write \<open>receiptCh <- receipt\<close> itself
  (\<open>ChanSend\<close>).
\<close>

datatype ('id, 'c, 'r, 'e) event =
    PendingChanged "64 word"
  | TxMgrSend Context 'c
  | GoSendTx GroupRef Context 'id 'c Chan
  | GoNotify Chan "('id, 'r, 'e) TxReceipt"
  | ChanSend Chan "('id, 'r, 'e) TxReceipt"

text \<open>
  The state: the queue's fields, then which contexts report an error (\<open>ctx.Err() != nil\<close>),
  the context each derived context was derived from, the group objects, the next unused
  references, and the events so far.
\<close>

record ('id, 'c, 'r, 'e) world = "('c, 'r, 'e) Queue" +
  ctxErr :: "Context \<Rightarrow> bool"
  ctxParent :: "Context \<Rightarrow> Context option"
  nextCtx :: Context
  groups :: "GroupRef \<Rightarrow> Group option"
  nextGroup :: GroupRef
  events :: "('id, 'c, 'r, 'e) event list"

text \<open>
  \<open>errgroup.WithContext(parent)\<close>: a new group with no limit and no goroutine, and a new
  context derived from \<open>parent\<close>; a context derived from a cancelled context is cancelled
  from the start.
\<close>

definition errgroup_WithContext ::
  "Context \<Rightarrow> ('id, 'c, 'r, 'e) world \<Rightarrow> (GroupRef \<times> Context) \<times> ('id, 'c, 'r, 'e) world" where
  "errgroup_WithContext parent w =
     (let c = nextCtx w; g = nextGroup w
      in ((g, c),
          w\<lparr>ctxErr := (ctxErr w)(c := ctxErr w parent),
            ctxParent := (ctxParent w)(c \<mapsto> parent),
            nextCtx := Suc c,
            groups := (groups w)(g \<mapsto> \<lparr>gctx = c, limit = None, active = 0\<rparr>),
            nextGroup := Suc g\<rparr>))"

text \<open>
  \<open>SetLimit(n)\<close>: a negative \<open>n\<close> means no limit; a limit must not be changed while
  goroutines hold slots of it, that is, while a group with a limit has active goroutines
  (the library panics).
  A call on a reference that points to no group stands for a nil pointer: it panics.
\<close>

definition Group_SetLimit ::
  "GroupRef \<Rightarrow> int \<Rightarrow> ('id, 'c, 'r, 'e) world \<Rightarrow> unit outcome \<times> ('id, 'c, 'r, 'e) world" where
  "Group_SetLimit g n w =
     (case groups w g of
        None \<Rightarrow> (Panic, w)
      | Some G \<Rightarrow>
          if n < 0 then (Return (), w\<lparr>groups := (groups w)(g \<mapsto> G\<lparr>limit := None\<rparr>)\<rparr>)
          else if limit G \<noteq> None \<and> active G \<noteq> 0 then (Panic, w)
          else (Return (), w\<lparr>groups := (groups w)(g \<mapsto> G\<lparr>limit := Some (nat n)\<rparr>)\<rparr>))"

text \<open>
  \<open>Wait()\<close> blocks until every goroutine of the group has returned; the group's context
  is cancelled when \<open>Wait\<close> returns.
\<close>

definition Group_Wait ::
  "GroupRef \<Rightarrow> ('id, 'c, 'r, 'e) world \<Rightarrow> unit outcome \<times> ('id, 'c, 'r, 'e) world" where
  "Group_Wait g w =
     (case groups w g of
        None \<Rightarrow> (Panic, w)
      | Some G \<Rightarrow>
          if active G \<noteq> 0 then (Block, w)
          else (Return (), w\<lparr>ctxErr := (ctxErr w)(gctx G := True)\<rparr>))"

text \<open>
  \<open>Go(f)\<close> blocks while the number of active goroutines is at the limit, then starts
  \<open>f\<close> in a new goroutine. \<open>TryGo(f)\<close> starts \<open>f\<close> only if the number of active goroutines
  is below the limit, and reports whether it did. The function started is always the
  closure \<open>func() error { return q.sendTx(ctx, id, candidate, receiptCh) }\<close>, given here
  by the four values it captures.
\<close>

definition atLimit :: "Group \<Rightarrow> bool" where
  "atLimit G = (case limit G of None \<Rightarrow> False | Some n \<Rightarrow> n \<le> active G)"

definition startGoroutine ::
  "GroupRef \<Rightarrow> Group \<Rightarrow> Context \<Rightarrow> 'id \<Rightarrow> 'c \<Rightarrow> Chan \<Rightarrow> ('id, 'c, 'r, 'e) world
     \<Rightarrow> ('id, 'c, 'r, 'e) world" where
  "startGoroutine g G c i candidate receiptCh w =
     w\<lparr>groups := (groups w)(g \<mapsto> G\<lparr>active := Suc (active G)\<rparr>),
       events := events w @ [GoSendTx g c i candidate receiptCh]\<rparr>"

definition Group_Go ::
  "GroupRef \<Rightarrow> Context \<Rightarrow> 'id \<Rightarrow> 'c \<Rightarrow> Chan \<Rightarrow> ('id, 'c, 'r, 'e) world
     \<Rightarrow> unit outcome \<times> ('id, 'c, 'r, 'e) world" where
  "Group_Go g c i candidate receiptCh w =
     (case groups w g of
        None \<Rightarrow> (Panic, w)
      | Some G \<Rightarrow>
          if atLimit G then (Block, w)
          else (Return (), startGoroutine g G c i candidate receiptCh w))"

definition Group_TryGo ::
  "GroupRef \<Rightarrow> Context \<Rightarrow> 'id \<Rightarrow> 'c \<Rightarrow> Chan \<Rightarrow> ('id, 'c, 'r, 'e) world
     \<Rightarrow> bool outcome \<times> ('id, 'c, 'r, 'e) world" where
  "Group_TryGo g c i candidate receiptCh w =
     (case groups w g of
        None \<Rightarrow> (Panic, w)
      | Some G \<Rightarrow>
          if atLimit G then (Return False, w)
          else (Return True, startGoroutine g G c i candidate receiptCh w))"

subsection \<open>The methods of the queue\<close>

text \<open>
  \<open>groupContext\<close>: the test \<open>q.groupCtx == nil || q.groupCtx.Err() != nil\<close>, then, in
  that case, \<open>Wait\<close> on the old group if there is one, \<open>errgroup.WithContext(q.ctx)\<close>, and
  \<open>SetLimit(int(q.maxPending))\<close> if \<open>q.maxPending > 0\<close>. The result is the pair
  \<open>(q.group, q.groupCtx)\<close>.
\<close>

definition groupContext ::
  "nat \<Rightarrow> ('id, 'c, 'r, 'e) world
     \<Rightarrow> (GroupRef option \<times> Context option) outcome \<times> ('id, 'c, 'r, 'e) world" where
  "groupContext intSize q =
     (if (case groupCtx q of None \<Rightarrow> True | Some c \<Rightarrow> ctxErr q c) then
        andThen (case group q of None \<Rightarrow> (Return (), q) | Some g \<Rightarrow> Group_Wait g q)
          (\<lambda>_ q1.
             case errgroup_WithContext (ctx q1) q1 of
               ((g, c), q2) \<Rightarrow>
                 (let q3 = q2\<lparr>group := Some g, groupCtx := Some c\<rparr> in
                  andThen (if maxPending q3 > 0
                           then Group_SetLimit g (int_of_uint64 intSize (maxPending q3)) q3
                           else (Return (), q3))
                    (\<lambda>_ q4. (Return (group q4, groupCtx q4), q4))))
      else (Return (group q, groupCtx q), q))"

text \<open>
  \<open>sendTx\<close>, statement by statement: \<open>q.pendingChanged(q.pending.Add(1))\<close>; the
  \<open>defer\<close>, which runs when the function returns; \<open>q.txMgr.Send(ctx, candidate)\<close>; the
  \<open>go\<close> statement; \<open>return err\<close>, and with it the deferred
  \<open>q.pendingChanged(q.pending.Add(^uint64(0)))\<close>. When \<open>txMgr.Send\<close> does not return,
  neither does \<open>sendTx\<close>, and the state is the one reached at that call.
\<close>

definition sendTx ::
  "Context \<Rightarrow> 'id \<Rightarrow> 'c \<Rightarrow> Chan \<Rightarrow> ('id, 'c, 'r, 'e) world
     \<Rightarrow> 'e option outcome \<times> ('id, 'c, 'r, 'e) world" where
  "sendTx c i candidate receiptCh q =
     (let n = pending q + 1;
          q1 = q\<lparr>pending := n, events := events q @ [PendingChanged n]\<rparr>;
          q2 = q1\<lparr>events := events q1 @ [TxMgrSend c candidate]\<rparr>
      in case txMgr q2 c candidate of
           None \<Rightarrow> (Block, q2)
         | Some (receipt, err) \<Rightarrow>
             (let q3 = q2\<lparr>events := events q2
                         @ [GoNotify receiptCh \<lparr>ID = i, Receipt = receipt, Err = err\<rparr>]\<rparr>;
                  m = pending q3 + (- 1);
                  q4 = q3\<lparr>pending := m, events := events q3 @ [PendingChanged m]\<rparr>
              in (Return err, q4)))"

text \<open>
  \<open>Send\<close> and \<open>TrySend\<close>: \<open>q.receiptWg.Add(1)\<close>, \<open>q.groupContext()\<close>, then \<open>group.Go\<close> or
  \<open>group.TryGo\<close> with the closure over \<open>sendTx\<close>. \<open>groupContext\<close> never returns a nil
  context; a nil group makes the call on it panic. In \<open>TrySend\<close>, \<open>q.receiptWg.Done()\<close>
  follows an \<open>Add(1)\<close> of the same call, so the counter is at least 1 there.
\<close>

definition Send ::
  "nat \<Rightarrow> 'id \<Rightarrow> 'c \<Rightarrow> Chan \<Rightarrow> ('id, 'c, 'r, 'e) world
     \<Rightarrow> unit outcome \<times> ('id, 'c, 'r, 'e) world" where
  "Send intSize i candidate receiptCh q =
     andThen (groupContext intSize (q\<lparr>receiptWg := Suc (receiptWg q)\<rparr>))
       (\<lambda>gc q2.
          case gc of
            (Some g, Some c) \<Rightarrow> Group_Go g c i candidate receiptCh q2
          | _ \<Rightarrow> (Panic, q2))"

definition TrySend ::
  "nat \<Rightarrow> 'id \<Rightarrow> 'c \<Rightarrow> Chan \<Rightarrow> ('id, 'c, 'r, 'e) world
     \<Rightarrow> bool outcome \<times> ('id, 'c, 'r, 'e) world" where
  "TrySend intSize i candidate receiptCh q =
     andThen (groupContext intSize (q\<lparr>receiptWg := Suc (receiptWg q)\<rparr>))
       (\<lambda>gc q2.
          case gc of
            (Some g, Some c) \<Rightarrow>
              andThen (Group_TryGo g c i candidate receiptCh q2)
                (\<lambda>started q3.
                   if \<not> started
                   then (Return started, q3\<lparr>receiptWg := receiptWg q3 - 1\<rparr>)
                   else (Return started, q3))
          | _ \<Rightarrow> (Panic, q2))"

subsection \<open>States of a queue in use\<close>

text \<open>
  \<open>initWorld q\<close> is the state right after \<open>NewQueue\<close> returned \<open>q\<close>: the root context is
  live, no group and no derived context exist, nothing has happened yet.
  \<open>Queue_ok\<close> collects what holds of every queue built by \<open>NewQueue\<close> and used through its
  methods: \<open>maxPending\<close> fits in an \<open>int\<close>; \<open>group\<close> and \<open>groupCtx\<close> are set together, and
  point to objects that exist. \<open>sameQueue\<close> says that two states agree on the fields
  that \<open>groupContext\<close> does not write.
\<close>

definition initWorld :: "('c, 'r, 'e) Queue \<Rightarrow> ('id, 'c, 'r, 'e) world" where
  "initWorld q =
     Queue.extend q
       (world.fields (\<lambda>c. False) Map.empty (Suc (ctx q)) Map.empty 0 [])"

definition Queue_ok :: "nat \<Rightarrow> ('id, 'c, 'r, 'e) world \<Rightarrow> bool" where
  "Queue_ok intSize q =
     ((intSize = 32 \<or> intSize = 64)
      \<and> uint (maxPending q) \<le> math_MaxInt intSize
      \<and> (group q = None) = (groupCtx q = None)
      \<and> (case group q of None \<Rightarrow> True | Some g \<Rightarrow> g < nextGroup q \<and> groups q g \<noteq> None)
      \<and> (case groupCtx q of None \<Rightarrow> True | Some c \<Rightarrow> c < nextCtx q)
      \<and> ctx q < nextCtx q)"

definition sameQueue :: "('id, 'c, 'r, 'e) world \<Rightarrow> ('id, 'c, 'r, 'e) world \<Rightarrow> bool" where
  "sameQueue q q' =
     (pending q' = pending q \<and> events q' = events q \<and> receiptWg q' = receiptWg q
      \<and> maxPending q' = maxPending q \<and> ctx q' = ctx q \<and> txMgr q' = txMgr q)"

definition afterWait :: "('id, 'c, 'r, 'e) world \<Rightarrow> Context \<Rightarrow> bool" where
  "afterWait q =
     (case group q of
        None \<Rightarrow> ctxErr q
      | Some g \<Rightarrow> (case groups q g of None \<Rightarrow> ctxErr q | Some G \<Rightarrow> (ctxErr q)(gctx G := True)))"

text \<open>
  Concrete states: a transaction manager that returns the receipt \<open>candidate + 100\<close> and
  no error; a queue with \<open>maxPending = 1\<close> on a 64-bit platform, fresh (\<open>exampleWorld\<close>),
  after one accepted \<open>TrySend\<close> (\<open>saturatedWorld\<close>: one goroutine active, at the limit),
  with the group's context cancelled while that goroutine is active (\<open>cancelledWorld\<close>),
  and with the context cancelled after the goroutine has returned (\<open>drainedWorld\<close>).
\<close>

definition exampleTxMgr :: "Context \<Rightarrow> nat \<Rightarrow> (nat \<times> nat option) option" where
  "exampleTxMgr c candidate = Some (candidate + 100, None)"

definition exampleWorld :: "(nat, nat, nat, nat) world" where
  "exampleWorld = initWorld (NewQueue 64 0 exampleTxMgr 1)"

definition saturatedWorld :: "(nat, nat, nat, nat) world" where
  "saturatedWorld = snd (TrySend 64 7 42 3 exampleWorld)"

definition cancelledWorld :: "(nat, nat, nat, nat) world" where
  "cancelledWorld = saturatedWorld\<lparr>ctxErr := (ctxErr saturatedWorld)(1 := True)\<rparr>"

definition drainedWorld :: "(nat, nat, nat, nat) world" where
  "drainedWorld =
     cancelledWorld\<lparr>groups := (groups cancelledWorld)(0 \<mapsto> \<lparr>gctx = 1, limit = Some 1, active = 0\<rparr>)\<rparr>"

subsection \<open>A schedule of three concurrent calls of Send\<close>

text \<open>
  The goroutine that \<open>Go\<close> or \<open>TryGo\<close> started ends as the library documents: when the
  function it ran returned a non-nil error, the group's context is cancelled; then the
  goroutine is no longer active (\<open>Group_done\<close>).

  \<open>executing\<close> counts, in a list of events, the calls of \<open>txMgr.Send\<close> that have started
  and not returned: \<open>sendTx\<close> records \<open>GoNotify\<close> right after each return of \<open>txMgr.Send\<close>.

  The schedule, for a queue with \<open>maxPending = 1\<close>. The transaction manager fails on
  candidate 1 and does not return on the other candidates.
  \<^item> \<open>race1\<close>: caller A has run the first two statements of \<open>Send\<close> (\<open>receiptWg.Add(1)\<close>
    and \<open>groupContext()\<close>) and holds group 0 and context 1; it has not called \<open>group.Go\<close>.
  \<^item> \<open>race2\<close>: caller B has run \<open>Send\<close> with candidate 1.
  \<^item> \<open>race3\<close>: B's goroutine has run \<open>sendTx\<close>, which returned the error, and has ended:
    context 1 is cancelled and group 0 has no active goroutine.
  \<^item> \<open>race4\<close>: caller C has run \<open>Send\<close> with candidate 2: \<open>groupContext\<close> installed
    group 1 and context 2.
  \<^item> \<open>race5\<close>: C's goroutine is inside \<open>txMgr.Send\<close>.
  \<^item> \<open>race6\<close>: caller A has gone on to its \<open>group.Go\<close>, on group 0.
  \<^item> \<open>race7\<close>: A's goroutine is inside \<open>txMgr.Send\<close> too.
\<close>

definition Group_done ::
  "GroupRef \<Rightarrow> 'e option \<Rightarrow> ('id, 'c, 'r, 'e) world \<Rightarrow> ('id, 'c, 'r, 'e) world" where
  "Group_done g err w =
     (case groups w g of
        None \<Rightarrow> w
      | Some G \<Rightarrow>
          w\<lparr>ctxErr := (if err \<noteq> None then (ctxErr w)(gctx G := True) else ctxErr w),
            groups := (groups w)(g \<mapsto> G\<lparr>active := active G - 1\<rparr>)\<rparr>)"

fun isTxMgrSend :: "('id, 'c, 'r, 'e) event \<Rightarrow> bool" where
  "isTxMgrSend (TxMgrSend c candidate) = True"
| "isTxMgrSend _ = False"

fun isGoNotify :: "('id, 'c, 'r, 'e) event \<Rightarrow> bool" where
  "isGoNotify (GoNotify receiptCh r) = True"
| "isGoNotify _ = False"

definition executing :: "('id, 'c, 'r, 'e) event list \<Rightarrow> nat" where
  "executing evs = length (filter isTxMgrSend evs) - length (filter isGoNotify evs)"

definition raceTxMgr :: "Context \<Rightarrow> nat \<Rightarrow> (nat \<times> nat option) option" where
  "raceTxMgr c candidate = (if candidate = 1 then Some (0, Some 0) else None)"

definition race0 :: "(nat, nat, nat, nat) world" where
  "race0 = initWorld (NewQueue 64 0 raceTxMgr 1)"

definition race1 :: "(nat, nat, nat, nat) world" where
  "race1 = snd (groupContext 64 (race0\<lparr>receiptWg := Suc (receiptWg race0)\<rparr>))"

definition race2 :: "(nat, nat, nat, nat) world" where
  "race2 = snd (Send 64 2 1 9 race1)"

definition race3 :: "(nat, nat, nat, nat) world" where
  "race3 = Group_done 0 (Some 0) (snd (sendTx 1 2 1 9 race2))"

definition race4 :: "(nat, nat, nat, nat) world" where
  "race4 = snd (Send 64 3 2 9 race3)"

definition race5 :: "(nat, nat, nat, nat) world" where
  "race5 = snd (sendTx 2 3 2 9 race4)"

definition race6 :: "(nat, nat, nat, nat) world" where
  "race6 = snd (Group_Go 0 1 1 3 9 race5)"

definition race7 :: "(nat, nat, nat, nat) world" where
  "race7 = snd (sendTx 1 1 3 9 race6)"

subsection \<open>Wait, result delivery, and the states a queue can reach\<close>



text \<open>
  Read off the events: the work items accepted so far, each as its receipt channel and
  its identifier (\<open>accepted\<close>: one for every goroutine that \<open>Send\<close> or \<open>TrySend\<close> started);
  the receipts handed to a delivery goroutine (\<open>notified\<close>); and the receipts written to
  their channel (\<open>delivered\<close>). All three are multisets: the queue does not require
  identifiers to be distinct. \<open>receiptKey\<close> is the channel and the identifier of a receipt.
\<close>

fun acceptedBy :: "('id, 'c, 'r, 'e) event \<Rightarrow> (Chan \<times> 'id) multiset" where
  "acceptedBy (GoSendTx g c i candidate receiptCh) = {#(receiptCh, i)#}"
| "acceptedBy _ = {#}"

fun notifiedBy :: "('id, 'c, 'r, 'e) event \<Rightarrow> (Chan \<times> ('id, 'r, 'e) TxReceipt) multiset" where
  "notifiedBy (GoNotify receiptCh receipt) = {#(receiptCh, receipt)#}"
| "notifiedBy _ = {#}"

fun deliveredBy :: "('id, 'c, 'r, 'e) event \<Rightarrow> (Chan \<times> ('id, 'r, 'e) TxReceipt) multiset" where
  "deliveredBy (ChanSend receiptCh receipt) = {#(receiptCh, receipt)#}"
| "deliveredBy _ = {#}"

definition accepted :: "('id, 'c, 'r, 'e) event list \<Rightarrow> (Chan \<times> 'id) multiset" where
  "accepted evs = sum_list (map acceptedBy evs)"

definition notified ::
  "('id, 'c, 'r, 'e) event list \<Rightarrow> (Chan \<times> ('id, 'r, 'e) TxReceipt) multiset" where
  "notified evs = sum_list (map notifiedBy evs)"

definition delivered ::
  "('id, 'c, 'r, 'e) event list \<Rightarrow> (Chan \<times> ('id, 'r, 'e) TxReceipt) multiset" where
  "delivered evs = sum_list (map deliveredBy evs)"



definition Queue_linked :: "('id, 'c, 'r, 'e) world \<Rightarrow> bool" where
  "Queue_linked q =
     (case group q of
        None \<Rightarrow> True
      | Some g \<Rightarrow> (case groups q g of None \<Rightarrow> False | Some G \<Rightarrow> groupCtx q = Some (gctx G)))"


text \<open>
  Concrete states of the example queue: after an accepted \<open>Send\<close> (\<open>sentWorld\<close>), after the
  goroutine of that send has run \<open>sendTx\<close> and ended (\<open>ranWorld\<close>), and after the receipt
  has been written to its channel (\<open>deliveredWorld\<close>).
\<close>

definition sentWorld :: "(nat, nat, nat, nat) world" where
  "sentWorld = snd (Send 64 7 42 3 exampleWorld)"



section \<open>Properties of the game state\<close>

lemma getParent_None_iff:
  "(getParent api g claim = None) =
     (IsRoot api claim \<or> ParentContractIndex api claim < 0
        \<or> ParentContractIndex api claim \<ge> int (length (claims g)))"
  by (auto simp: getParent_def)

lemma getParent_Some:
  "\<not> IsRoot api claim \<Longrightarrow> 0 \<le> ParentContractIndex api claim \<Longrightarrow>
   ParentContractIndex api claim < int (length (claims g)) \<Longrightarrow>
   getParent api g claim = Some (claims g ! nat (ParentContractIndex api claim))"
  by (simp add: getParent_def)

text \<open>
  C8. \<open>GetParent\<close> returns \<open>(Claim{}, ErrClaimNotFound)\<close> exactly when the claim is a root
  claim or its \<open>ParentContractIndex\<close> is negative or at least the length of the claims
  list; in every other case it returns the claim stored at that index, with a nil error.
\<close>

theorem GetParent_not_found_iff:
  "(GetParent api g claim = (EmptyClaim api, Some ErrClaimNotFound)) =
     (IsRoot api claim \<or> ParentContractIndex api claim < 0
        \<or> ParentContractIndex api claim \<ge> int (length (claims g)))
   \<and> GetParent api g claim =
     (if IsRoot api claim \<or> ParentContractIndex api claim < 0
         \<or> ParentContractIndex api claim \<ge> int (length (claims g))
      then (EmptyClaim api, Some ErrClaimNotFound)
      else (claims g ! nat (ParentContractIndex api claim), None))"
proof (cases "getParent api g claim")
  case None
  then show ?thesis
    using getParent_None_iff [of api g claim] by (simp add: GetParent_def)
next
  case (Some parent)
  then have "getParent api g claim \<noteq> None" by simp
  then have inside: "\<not> (IsRoot api claim \<or> ParentContractIndex api claim < 0
        \<or> ParentContractIndex api claim \<ge> int (length (claims g)))"
    by (simp add: getParent_None_iff)
  then have "getParent api g claim = Some (claims g ! nat (ParentContractIndex api claim))"
    by (intro getParent_Some) auto
  with inside show ?thesis by (simp add: GetParent_def)
qed

text \<open>
  C10. \<open>DefendsParent\<close> returns false, and does not fail, whenever the claim is a root
  claim or its \<open>ParentContractIndex\<close> is outside the bounds of the claims list; otherwise
  it returns whether the claim's position is right of its parent's position.
\<close>

theorem DefendsParent_false_or_right:
  "DefendsParent api g claim =
     (if IsRoot api claim \<or> ParentContractIndex api claim < 0
         \<or> ParentContractIndex api claim \<ge> int (length (claims g))
      then False
      else RightOf api claim (Position api (claims g ! nat (ParentContractIndex api claim))))"
  by (simp add: DefendsParent_def getParent_def)

text \<open>
  The loop, one iteration at a time: computation by the recursion equation, by induction
  on the number of parent links that may still be followed.
\<close>

lemma AncestorWithTraceIndex_chain:
  assumes "parentsPrecede api (claims g)"
    and "IsRoot api c \<or> ParentContractIndex api c \<ge> int (length (claims g))
           \<or> ParentContractIndex api c < int n"
  shows "AncestorWithTraceIndex api g c idx =
           Some (firstWithTraceIndex api (depth g) idx (parentChain api (claims g) n c))"
  using assms(2)
proof (induction n arbitrary: c)
  case 0
  then have "getParent api g c = None" by (auto simp: getParent_def)
  then show ?case
    by (subst AncestorWithTraceIndex.simps) (simp add: firstWithTraceIndex_def)
next
  case (Suc n)
  show ?case
  proof (cases "getParent api g c")
    case None
    then have "IsRoot api c \<or> ParentContractIndex api c < 0
        \<or> ParentContractIndex api c \<ge> int (length (claims g))"
      by (simp add: getParent_None_iff)
    with None show ?thesis
      by (subst AncestorWithTraceIndex.simps) (auto simp: firstWithTraceIndex_def)
  next
    case (Some p)
    then have "getParent api g c \<noteq> None" by simp
    then have inside: "\<not> IsRoot api c" "0 \<le> ParentContractIndex api c"
        "ParentContractIndex api c < int (length (claims g))"
      by (auto simp: getParent_None_iff)
    then have p: "p = claims g ! nat (ParentContractIndex api c)"
      using Some by (simp add: getParent_Some)
    from inside have "nat (ParentContractIndex api c) < length (claims g)" by simp
    with assms(1) have "ParentContractIndex api p < int (nat (ParentContractIndex api c))"
      unfolding parentsPrecede_def p by blast
    with inside Suc.prems have "ParentContractIndex api p < int n" by simp
    then have "AncestorWithTraceIndex api g p idx =
        Some (firstWithTraceIndex api (depth g) idx (parentChain api (claims g) n p))"
      by (intro Suc.IH) simp
    with Some inside p show ?thesis
      by (subst AncestorWithTraceIndex.simps) (simp add: firstWithTraceIndex_def)
  qed
qed

text \<open>
  With as many parent links as the list has claims, the chain is complete: its last
  claim has no parent.
\<close>

lemma parentChain_complete:
  assumes "parentsPrecede api (claims g)"
    and "IsRoot api c \<or> ParentContractIndex api c \<ge> int (length (claims g))
           \<or> ParentContractIndex api c < int n"
  shows "getParent api g (last (parentChain api (claims g) n c)) = None"
  using assms(2)
proof (induction n arbitrary: c)
  case 0
  then show ?case by (auto simp: getParent_def)
next
  case (Suc n)
  show ?case
  proof (cases "getParent api g c")
    case None
    then have "IsRoot api c \<or> ParentContractIndex api c < 0
        \<or> ParentContractIndex api c \<ge> int (length (claims g))"
      by (simp add: getParent_None_iff)
    with None show ?thesis by auto
  next
    case (Some p)
    then have "getParent api g c \<noteq> None" by simp
    then have inside: "\<not> IsRoot api c" "0 \<le> ParentContractIndex api c"
        "ParentContractIndex api c < int (length (claims g))"
      by (auto simp: getParent_None_iff)
    let ?p = "claims g ! nat (ParentContractIndex api c)"
    from inside have "nat (ParentContractIndex api c) < length (claims g)" by simp
    with assms(1) have "ParentContractIndex api ?p < int (nat (ParentContractIndex api c))"
      unfolding parentsPrecede_def by blast
    with inside Suc.prems have "ParentContractIndex api ?p < int n" by simp
    then have "getParent api g (last (parentChain api (claims g) n ?p)) = None"
      by (intro Suc.IH) simp
    moreover have "parentChain api (claims g) n ?p \<noteq> []"
      by (cases n) auto
    ultimately show ?thesis using inside by simp
  qed
qed

text \<open>
  C9. When every claim of the list has a \<open>ParentContractIndex\<close> strictly smaller than its
  own index, and the starting claim's \<open>ParentContractIndex\<close> is below the list length,
  \<open>AncestorWithTraceIndex\<close> returns: its result is \<open>(c, true)\<close> for the first claim \<open>c\<close> of
  the parent chain whose trace index at the game's depth is \<open>idx\<close>, and \<open>(Claim{}, false)\<close>
  when the chain ends, at a root claim or at an out-of-range parent index, with no such
  claim. The chain is the whole chain: its last claim is a root claim or has an
  out-of-range parent index.
\<close>

theorem AncestorWithTraceIndex_terminates:
  assumes "parentsPrecede api (claims g)"
    and "ParentContractIndex api claim < int (length (claims g))"
  shows "AncestorWithTraceIndex api g claim idx =
           Some (firstWithTraceIndex api (depth g) idx
                   (parentChain api (claims g) (length (claims g)) claim))
       \<and> getParent api g (last (parentChain api (claims g) (length (claims g)) claim)) = None"
  using assms
  by (intro conjI AncestorWithTraceIndex_chain parentChain_complete) simp_all

lemma parentsPrecede_exampleGame: "parentsPrecede exampleApi (claims exampleGame)"
  by (auto simp: parentsPrecede_def exampleApi_def exampleGame_def less_Suc_eq numeral_3_eq_3)

theorem AncestorWithTraceIndex_terminates_witness:
  "parentsPrecede exampleApi (claims exampleGame)
   \<and> ParentContractIndex exampleApi (8, 2) < int (length (claims exampleGame))
   \<and> AncestorWithTraceIndex exampleApi exampleGame (8, 2) 2 = Some ((2, 0), True)
   \<and> AncestorWithTraceIndex exampleApi exampleGame (8, 2) 5 = Some ((0, 0), False)"
proof -
  have len: "ParentContractIndex exampleApi (8, 2) < int (length (claims exampleGame))"
    by (simp add: exampleApi_def exampleGame_def)
  have chain: "parentChain exampleApi (claims exampleGame) (length (claims exampleGame)) (8, 2)
      = [(8, 2), (4, 1), (2, 0), (1, - 1)]"
    by (simp add: exampleApi_def exampleGame_def numeral_3_eq_3)
  have "AncestorWithTraceIndex exampleApi exampleGame (8, 2) 2 = Some ((2, 0), True)"
    using AncestorWithTraceIndex_terminates [OF parentsPrecede_exampleGame len, of 2]
    unfolding chain by (simp add: firstWithTraceIndex_def exampleApi_def)
  moreover have "AncestorWithTraceIndex exampleApi exampleGame (8, 2) 5 = Some ((0, 0), False)"
    using AncestorWithTraceIndex_terminates [OF parentsPrecede_exampleGame len, of 5]
    unfolding chain by (simp add: firstWithTraceIndex_def exampleApi_def)
  ultimately show ?thesis using parentsPrecede_exampleGame len by simp
qed

section \<open>Properties of the queue\<close>

lemma andThen_simps [simp]:
  "andThen (Return a, s) f = f a s"
  "andThen (Block, s) f = (Block, s)"
  "andThen (Panic, s) f = (Panic, s)"
  by (simp_all add: andThen_def)

subsection \<open>NewQueue\<close>

lemma uint_MaxInt:
  "intSize = 32 \<or> intSize = 64 \<Longrightarrow>
   uint (word_of_int (math_MaxInt intSize) :: 64 word) = math_MaxInt intSize"
  by (auto simp: math_MaxInt_def)

lemma int_of_uint64_exact:
  assumes "uint x \<le> math_MaxInt intSize"
  shows "int_of_uint64 intSize x = uint x"
proof -
  have "- (2 ^ (intSize - 1)) \<le> (0::int)" by simp
  also have "0 \<le> uint x" by simp
  finally have lo: "- (2 ^ (intSize - 1)) \<le> uint x" .
  from assms have hi: "uint x < 2 ^ (intSize - 1)" by (simp add: math_MaxInt_def)
  show ?thesis
    unfolding int_of_uint64_def by (rule signed_take_bit_int_eq_self [OF lo hi])
qed

lemma maxPending_NewQueue:
  "maxPending (NewQueue intSize c t mp) =
     (if mp > word_of_int (math_MaxInt intSize) then word_of_int (math_MaxInt intSize) else mp)"
  by (simp add: NewQueue_def Let_def)

lemma uint_maxPending_NewQueue:
  assumes "intSize = 32 \<or> intSize = 64"
  shows "uint (maxPending (NewQueue intSize c t mp)) = min (uint mp) (math_MaxInt intSize)"
  by (simp add: maxPending_NewQueue word_less_def uint_MaxInt [OF assms] min_def)

text \<open>
  C7. \<open>NewQueue\<close> replaces a \<open>maxPending\<close> above \<open>math.MaxInt\<close> by \<open>math.MaxInt\<close> and stores
  any other \<open>maxPending\<close> unchanged; it has no error result; and the stored value fits
  in an \<open>int\<close>: it is at most \<open>math.MaxInt\<close>, and the conversion \<open>int(q.maxPending)\<close> does
  not change it.
\<close>

theorem NewQueue_clamps_maxPending:
  assumes "intSize = 32 \<or> intSize = 64"
  shows "maxPending (NewQueue intSize c t mp) =
           (if uint mp > math_MaxInt intSize then word_of_int (math_MaxInt intSize) else mp)
       \<and> uint (maxPending (NewQueue intSize c t mp)) = min (uint mp) (math_MaxInt intSize)
       \<and> int_of_uint64 intSize (maxPending (NewQueue intSize c t mp))
           = uint (maxPending (NewQueue intSize c t mp))"
proof -
  have "maxPending (NewQueue intSize c t mp) =
           (if uint mp > math_MaxInt intSize then word_of_int (math_MaxInt intSize) else mp)"
    by (simp add: maxPending_NewQueue word_less_def uint_MaxInt [OF assms])
  moreover note val = uint_maxPending_NewQueue [OF assms, of c t mp]
  moreover have "int_of_uint64 intSize (maxPending (NewQueue intSize c t mp))
           = uint (maxPending (NewQueue intSize c t mp))"
    by (rule int_of_uint64_exact) (simp add: val)
  ultimately show ?thesis by blast
qed

theorem NewQueue_clamps_maxPending_witness:
  "((64::nat) = 32 \<or> (64::nat) = 64)
   \<and> maxPending (NewQueue 64 0 exampleTxMgr (2 ^ 63 + 5)) = 2 ^ 63 - 1
   \<and> maxPending (NewQueue 32 0 exampleTxMgr (2 ^ 31)) = 2 ^ 31 - 1
   \<and> maxPending (NewQueue 32 0 exampleTxMgr 7) = 7
   \<and> int_of_uint64 32 (maxPending (NewQueue 32 0 exampleTxMgr 7)) = 7"
proof -
  have "maxPending (NewQueue 64 0 exampleTxMgr (2 ^ 63 + 5)) = 2 ^ 63 - 1"
    using NewQueue_clamps_maxPending [of 64 0 exampleTxMgr "2 ^ 63 + 5"]
    by (simp add: math_MaxInt_def)
  moreover have "maxPending (NewQueue 32 0 exampleTxMgr (2 ^ 31)) = 2 ^ 31 - 1"
    using NewQueue_clamps_maxPending [of 32 0 exampleTxMgr "2 ^ 31"]
    by (simp add: math_MaxInt_def)
  moreover have seven: "maxPending (NewQueue 32 0 exampleTxMgr 7) = 7"
    using NewQueue_clamps_maxPending [of 32 0 exampleTxMgr 7]
    by (simp add: math_MaxInt_def)
  moreover have "int_of_uint64 32 (maxPending (NewQueue 32 0 exampleTxMgr 7)) = 7"
    using NewQueue_clamps_maxPending [of 32 0 exampleTxMgr 7] unfolding seven
    by simp
  ultimately show ?thesis by simp
qed

subsection \<open>sendTx\<close>

lemma sendTx_returns:
  assumes "txMgr q c candidate = Some (receipt, err)"
  shows "sendTx c i candidate receiptCh q =
     (Return err,
      q\<lparr>events := events q @
          [PendingChanged (pending q + 1),
           TxMgrSend c candidate,
           GoNotify receiptCh \<lparr>ID = i, Receipt = receipt, Err = err\<rparr>,
           PendingChanged (pending q)]\<rparr>)"
  using assms by (simp add: sendTx_def Let_def)

lemma sendTx_blocks:
  assumes "txMgr q c candidate = None"
  shows "sendTx c i candidate receiptCh q =
     (Block,
      q\<lparr>pending := pending q + 1,
        events := events q @ [PendingChanged (pending q + 1), TxMgrSend c candidate]\<rparr>)"
  using assms by (simp add: sendTx_def Let_def)

text \<open>
  C5, with the order the code has. When \<open>txMgr.Send\<close> returns \<open>(receipt, err)\<close>, the task
  body does, in this order: call \<open>pendingChanged\<close> with the incremented pending count;
  call \<open>txMgr.Send\<close> with the group context and the candidate; start the goroutine that
  delivers \<open>(id, receipt, err)\<close> to the receipt channel; and only then, as the function
  returns, call \<open>pendingChanged\<close> with the decremented pending count. It returns the
  error of \<open>txMgr.Send\<close>, and it does nothing else.
\<close>

theorem sendTx_order:
  assumes "txMgr q c candidate = Some (receipt, err)"
  shows "sendTx c i candidate receiptCh q =
     (Return err,
      q\<lparr>events := events q @
          [PendingChanged (pending q + 1),
           TxMgrSend c candidate,
           GoNotify receiptCh \<lparr>ID = i, Receipt = receipt, Err = err\<rparr>,
           PendingChanged (pending q)]\<rparr>)"
  using assms by (rule sendTx_returns)

lemma exampleWorld_fields:
  "pending exampleWorld = 0" "events exampleWorld = []" "receiptWg exampleWorld = 0"
  "txMgr exampleWorld = exampleTxMgr" "maxPending exampleWorld = 1" "ctx exampleWorld = 0"
  "group exampleWorld = None" "groupCtx exampleWorld = None"
  "nextCtx exampleWorld = 1" "nextGroup exampleWorld = 0"
  "ctxErr exampleWorld = (\<lambda>c. False)" "groups exampleWorld = Map.empty"
  "ctxParent exampleWorld = Map.empty"
  by (simp_all add: exampleWorld_def initWorld_def NewQueue_def Let_def math_MaxInt_def
        Queue.defs world.defs)

subsection \<open>groupContext\<close>

lemma sameQueue_refl [simp]: "sameQueue q q"
  by (simp add: sameQueue_def)

lemma sameQueue_trans: "sameQueue q q1 \<Longrightarrow> sameQueue q1 q2 \<Longrightarrow> sameQueue q q2"
  by (simp add: sameQueue_def)

lemma Group_Wait_same: "Group_Wait g q = (r, q') \<Longrightarrow> sameQueue q q'"
  by (auto simp: Group_Wait_def sameQueue_def split: option.splits if_splits)

lemma Group_SetLimit_same: "Group_SetLimit g n q = (r, q') \<Longrightarrow> sameQueue q q'"
  by (auto simp: Group_SetLimit_def sameQueue_def split: option.splits if_splits)

lemma WithContext_same: "errgroup_WithContext p q = (gc, q') \<Longrightarrow> sameQueue q q'"
  by (auto simp: errgroup_WithContext_def sameQueue_def Let_def)

lemma groupContext_same:
  assumes "groupContext intSize q = (r, q')"
  shows "sameQueue q q'"
proof (cases "case groupCtx q of None \<Rightarrow> True | Some c \<Rightarrow> ctxErr q c")
  case False
  with assms show ?thesis by (simp add: groupContext_def)
next
  case True
  obtain r1 q1 where w:
    "(case group q of None \<Rightarrow> (Return (), q) | Some g \<Rightarrow> Group_Wait g q) = (r1, q1)"
    by (cases "case group q of None \<Rightarrow> (Return (), q) | Some g \<Rightarrow> Group_Wait g q")
  then have s1: "sameQueue q q1"
    by (auto split: option.splits dest: Group_Wait_same)
  show ?thesis
  proof (cases r1)
    case (Return u)
    obtain g c q2 where wc: "errgroup_WithContext (ctx q1) q1 = ((g, c), q2)"
      by (cases "errgroup_WithContext (ctx q1) q1") auto
    then have s2: "sameQueue q1 q2" by (rule WithContext_same)
    let ?q3 = "q2\<lparr>group := Some g, groupCtx := Some c\<rparr>"
    let ?limited = "if maxPending ?q3 > 0
                    then Group_SetLimit g (int_of_uint64 intSize (maxPending ?q3)) ?q3
                    else (Return (), ?q3)"
    have s3: "sameQueue q2 ?q3" by (simp add: sameQueue_def)
    obtain r4 q4 where sl: "?limited = (r4, q4)" by (cases ?limited)
    then have s4: "sameQueue ?q3 q4"
      by (auto split: if_splits dest: Group_SetLimit_same)
    from assms True w Return wc sl have "q' = q4"
      unfolding groupContext_def by (cases r4) (simp_all add: Let_def)
    with s1 s2 s3 s4 show ?thesis by (blast intro: sameQueue_trans)
  next
    case Block
    with assms True w have "q' = q1" by (simp add: groupContext_def)
    with s1 show ?thesis by simp
  next
    case Panic
    with assms True w have "q' = q1" by (simp add: groupContext_def)
    with s1 show ?thesis by simp
  qed
qed

lemma groupContext_keep:
  assumes "groupCtx q = Some c" and "\<not> ctxErr q c"
  shows "groupContext intSize q = (Return (group q, Some c), q)"
  using assms by (simp add: groupContext_def)

lemma groupContext_wait:
  assumes "case groupCtx q of None \<Rightarrow> True | Some c \<Rightarrow> ctxErr q c"
    and "group q = Some g" and "groups q g = Some G" and "active G \<noteq> 0"
  shows "groupContext intSize q = (Block, q)"
  using assms by (simp add: groupContext_def Group_Wait_def)

lemma old_group_waited:
  assumes "case group q of None \<Rightarrow> True | Some g \<Rightarrow> (\<exists>G. groups q g = Some G \<and> active G = 0)"
  shows "(case group q of None \<Rightarrow> (Return (), q) | Some g \<Rightarrow> Group_Wait g q)
          = (Return (), q\<lparr>ctxErr := afterWait q\<rparr>)"
  using assms by (auto simp: Group_Wait_def afterWait_def split: option.splits)

lemma groupContext_install:
  assumes dead: "case groupCtx q of None \<Rightarrow> True | Some c \<Rightarrow> ctxErr q c"
    and fin: "case group q of None \<Rightarrow> True | Some g \<Rightarrow> (\<exists>G. groups q g = Some G \<and> active G = 0)"
    and n: "int_of_uint64 intSize (maxPending q) = uint (maxPending q)"
  shows "groupContext intSize q =
     (Return (Some (nextGroup q), Some (nextCtx q)),
      q\<lparr>group := Some (nextGroup q),
        groupCtx := Some (nextCtx q),
        ctxErr := (afterWait q)(nextCtx q := afterWait q (ctx q)),
        ctxParent := (ctxParent q)(nextCtx q \<mapsto> ctx q),
        nextCtx := Suc (nextCtx q),
        groups := (groups q)(nextGroup q \<mapsto>
           \<lparr>gctx = nextCtx q,
            limit = (if maxPending q > 0 then Some (unat (maxPending q)) else None),
            active = 0\<rparr>),
        nextGroup := Suc (nextGroup q)\<rparr>)"
proof -
  have nn: "\<not> uint (maxPending q) < 0" by simp
  show ?thesis
    unfolding groupContext_def
    using dead
    by (simp add: old_group_waited [OF fin] errgroup_WithContext_def Let_def Group_SetLimit_def
          n nn del: uint_ge_0)
qed

text \<open>
  C4. For a queue built by \<open>NewQueue\<close> and used through its methods (\<open>Queue_ok\<close>):
  when a group exists and its context reports no error, \<open>groupContext\<close> returns that
  group and context and changes nothing. Otherwise, as long as the existing group still
  has a goroutine that has not returned, the call does not return and installs nothing;
  and when there is no group, or every goroutine of the existing one has returned, it
  returns a new group and a new context and stores them in the queue: the context is
  derived from the queue's root context \<open>q.ctx\<close>, and the group has no goroutine, and
  the limit \<open>maxPending\<close> when \<open>maxPending > 0\<close> and no limit when \<open>maxPending = 0\<close>.
\<close>

theorem groupContext_lifecycle:
  assumes "Queue_ok intSize q"
  shows "(\<forall>g c. group q = Some g \<and> groupCtx q = Some c \<and> \<not> ctxErr q c \<longrightarrow>
            groupContext intSize q = (Return (Some g, Some c), q))
       \<and> (\<forall>g c G. group q = Some g \<and> groupCtx q = Some c \<and> ctxErr q c
              \<and> groups q g = Some G \<and> active G \<noteq> 0 \<longrightarrow>
            groupContext intSize q = (Block, q))
       \<and> (group q = None
            \<or> (\<exists>g c G. group q = Some g \<and> groupCtx q = Some c \<and> ctxErr q c
                  \<and> groups q g = Some G \<and> active G = 0) \<longrightarrow>
            fst (groupContext intSize q) = Return (Some (nextGroup q), Some (nextCtx q))
          \<and> group (snd (groupContext intSize q)) = Some (nextGroup q)
          \<and> groupCtx (snd (groupContext intSize q)) = Some (nextCtx q)
          \<and> Some (nextGroup q) \<noteq> group q
          \<and> Some (nextCtx q) \<noteq> groupCtx q
          \<and> nextCtx q \<noteq> ctx q
          \<and> ctxParent (snd (groupContext intSize q)) (nextCtx q) = Some (ctx q)
          \<and> ctxErr (snd (groupContext intSize q)) (nextCtx q)
              = ctxErr (snd (groupContext intSize q)) (ctx q)
          \<and> groups (snd (groupContext intSize q)) (nextGroup q) =
              Some \<lparr>gctx = nextCtx q,
                    limit = (if maxPending q > 0 then Some (unat (maxPending q)) else None),
                    active = 0\<rparr>)"
proof (intro conjI allI impI)
  fix g c
  assume "group q = Some g \<and> groupCtx q = Some c \<and> \<not> ctxErr q c"
  then show "groupContext intSize q = (Return (Some g, Some c), q)"
    using groupContext_keep [of q c intSize] by simp
next
  fix g c G
  assume "group q = Some g \<and> groupCtx q = Some c \<and> ctxErr q c
              \<and> groups q g = Some G \<and> active G \<noteq> 0"
  then show "groupContext intSize q = (Block, q)"
    using groupContext_wait [of q g G intSize] by simp
next
  assume a: "group q = None
            \<or> (\<exists>g c G. group q = Some g \<and> groupCtx q = Some c \<and> ctxErr q c
                  \<and> groups q g = Some G \<and> active G = 0)"
  from assms have both: "(group q = None) = (groupCtx q = None)"
    and fits: "uint (maxPending q) \<le> math_MaxInt intSize"
    and below: "case group q of None \<Rightarrow> True | Some g \<Rightarrow> g < nextGroup q \<and> groups q g \<noteq> None"
               "case groupCtx q of None \<Rightarrow> True | Some c \<Rightarrow> c < nextCtx q"
               "ctx q < nextCtx q"
    by (simp_all add: Queue_ok_def)
  from a both have dead: "case groupCtx q of None \<Rightarrow> True | Some c \<Rightarrow> ctxErr q c"
    by (auto split: option.splits)
  from a have fin: "case group q of None \<Rightarrow> True
                    | Some g \<Rightarrow> (\<exists>G. groups q g = Some G \<and> active G = 0)"
    by (auto split: option.splits)
  note inst = groupContext_install [OF dead fin int_of_uint64_exact [OF fits]]
  show "fst (groupContext intSize q) = Return (Some (nextGroup q), Some (nextCtx q))"
    by (simp add: inst)
  show "group (snd (groupContext intSize q)) = Some (nextGroup q)"
    by (simp add: inst)
  show "groupCtx (snd (groupContext intSize q)) = Some (nextCtx q)"
    by (simp add: inst)
  show "Some (nextGroup q) \<noteq> group q"
    using below(1) by (auto split: option.splits)
  show "Some (nextCtx q) \<noteq> groupCtx q"
    using below(2) by (auto split: option.splits)
  show "nextCtx q \<noteq> ctx q"
    using below(3) by simp
  show "ctxParent (snd (groupContext intSize q)) (nextCtx q) = Some (ctx q)"
    by (simp add: inst)
  show "ctxErr (snd (groupContext intSize q)) (nextCtx q)
              = ctxErr (snd (groupContext intSize q)) (ctx q)"
    by (simp add: inst)
  show "groups (snd (groupContext intSize q)) (nextGroup q) =
              Some \<lparr>gctx = nextCtx q,
                    limit = (if maxPending q > 0 then Some (unat (maxPending q)) else None),
                    active = 0\<rparr>"
    by (simp add: inst)
qed


subsection \<open>Queue_ok holds of every queue in use\<close>

lemma Queue_ok_initWorld:
  assumes "intSize = 32 \<or> intSize = 64"
  shows "Queue_ok intSize (initWorld (NewQueue intSize c t mp))"
proof -
  have "uint (maxPending (NewQueue intSize c t mp)) \<le> math_MaxInt intSize"
    by (simp add: uint_maxPending_NewQueue [OF assms])
  then show ?thesis
    using assms
    by (simp add: Queue_ok_def initWorld_def Queue.defs world.defs NewQueue_def Let_def)
qed

lemma Queue_ok_receiptWg [simp]:
  "Queue_ok intSize (q\<lparr>receiptWg := n\<rparr>) = Queue_ok intSize q"
  by (simp add: Queue_ok_def cong: option.case_cong)




lemma Send_unfold:
  "Send intSize i candidate receiptCh q =
     (case groupContext intSize (q\<lparr>receiptWg := Suc (receiptWg q)\<rparr>) of
        (Return (Some g, Some c), q2) \<Rightarrow>
          (case groups q2 g of
             None \<Rightarrow> (Panic, q2)
           | Some G \<Rightarrow>
               if atLimit G then (Block, q2)
               else (Return (), startGoroutine g G c i candidate receiptCh q2))
      | (Return _, q2) \<Rightarrow> (Panic, q2)
      | (Block, q2) \<Rightarrow> (Block, q2)
      | (Panic, q2) \<Rightarrow> (Panic, q2))"
  by (simp add: Send_def Group_Go_def split: prod.splits outcome.splits option.splits)

lemma TrySend_unfold:
  "TrySend intSize i candidate receiptCh q =
     (case groupContext intSize (q\<lparr>receiptWg := Suc (receiptWg q)\<rparr>) of
        (Return (Some g, Some c), q2) \<Rightarrow>
          (case groups q2 g of
             None \<Rightarrow> (Panic, q2)
           | Some G \<Rightarrow>
               if atLimit G then (Return False, q2\<lparr>receiptWg := receiptWg q2 - 1\<rparr>)
               else (Return True, startGoroutine g G c i candidate receiptCh q2))
      | (Return _, q2) \<Rightarrow> (Panic, q2)
      | (Block, q2) \<Rightarrow> (Block, q2)
      | (Panic, q2) \<Rightarrow> (Panic, q2))"
  by (simp add: TrySend_def Group_TryGo_def split: prod.splits outcome.splits option.splits)




subsection \<open>TrySend\<close>

text \<open>
  C3. Whenever \<open>TrySend\<close> returns false, the pending counter is what it was before the
  call, and the call has recorded no event: \<open>pendingChanged\<close> was not called,
  \<open>txMgr.Send\<close> was not called, and no goroutine was started, so that no \<open>sendTx\<close> runs
  for this attempt and no receipt is ever written for it. The counter \<open>receiptWg\<close> is
  back at its value too.
\<close>

theorem TrySend_rejected_no_effect:
  assumes "TrySend intSize i candidate receiptCh q = (Return False, q')"
  shows "pending q' = pending q \<and> events q' = events q \<and> receiptWg q' = receiptWg q"
proof -
  let ?q1 = "q\<lparr>receiptWg := Suc (receiptWg q)\<rparr>"
  obtain r q2 where gc: "groupContext intSize ?q1 = (r, q2)"
    by (cases "groupContext intSize ?q1")
  from groupContext_same [OF gc]
  have same: "pending q2 = pending q" "events q2 = events q" "receiptWg q2 = Suc (receiptWg q)"
    by (simp_all add: sameQueue_def)
  from assms have "q' = q2\<lparr>receiptWg := receiptWg q2 - 1\<rparr>"
    unfolding TrySend_unfold gc
    by (simp split: outcome.splits option.splits if_splits prod.splits)
  with same show ?thesis by simp
qed


subsection \<open>Concrete runs\<close>

lemma Queue_ok_exampleWorld: "Queue_ok 64 exampleWorld"
  unfolding exampleWorld_def by (rule Queue_ok_initWorld) simp

lemma TrySend_exampleWorld:
  "TrySend 64 7 42 3 exampleWorld =
     (Return True,
      exampleWorld\<lparr>receiptWg := 1, group := Some 0, groupCtx := Some 1,
        ctxErr := (\<lambda>c. False)(1 := False), ctxParent := [1 \<mapsto> 0], nextCtx := 2,
        groups := [0 \<mapsto> \<lparr>gctx = 1, limit = Some 1, active = 1\<rparr>], nextGroup := 1,
        events := [GoSendTx 0 1 7 42 3]\<rparr>)"
proof -
  let ?q1 = "exampleWorld\<lparr>receiptWg := Suc (receiptWg exampleWorld)\<rparr>"
  have dead: "case groupCtx ?q1 of None \<Rightarrow> True | Some c \<Rightarrow> ctxErr ?q1 c"
    by (simp add: exampleWorld_fields)
  have fin: "case group ?q1 of None \<Rightarrow> True
             | Some g \<Rightarrow> (\<exists>G. groups ?q1 g = Some G \<and> active G = 0)"
    by (simp add: exampleWorld_fields)
  have n: "int_of_uint64 64 (maxPending ?q1) = uint (maxPending ?q1)"
    by (rule int_of_uint64_exact) (simp add: exampleWorld_fields math_MaxInt_def)
  show ?thesis
    unfolding TrySend_unfold groupContext_install [OF dead fin n]
    by (simp add: exampleWorld_fields afterWait_def atLimit_def startGoroutine_def)
qed

lemma saturatedWorld_fields:
  "pending saturatedWorld = 0" "events saturatedWorld = [GoSendTx 0 1 7 42 3]"
  "receiptWg saturatedWorld = 1" "maxPending saturatedWorld = 1" "ctx saturatedWorld = 0"
  "group saturatedWorld = Some 0" "groupCtx saturatedWorld = Some 1"
  "nextCtx saturatedWorld = 2" "nextGroup saturatedWorld = 1"
  "ctxErr saturatedWorld = (\<lambda>c. False)(1 := False)"
  "groups saturatedWorld = [0 \<mapsto> \<lparr>gctx = 1, limit = Some 1, active = 1\<rparr>]"
  by (simp_all add: saturatedWorld_def TrySend_exampleWorld exampleWorld_fields)

lemma cancelledWorld_fields:
  "maxPending cancelledWorld = 1" "ctx cancelledWorld = 0"
  "group cancelledWorld = Some 0" "groupCtx cancelledWorld = Some 1"
  "nextCtx cancelledWorld = 2" "nextGroup cancelledWorld = 1"
  "ctxErr cancelledWorld = (\<lambda>c. False)(1 := True)"
  "groups cancelledWorld = [0 \<mapsto> \<lparr>gctx = 1, limit = Some 1, active = 1\<rparr>]"
  by (simp_all add: cancelledWorld_def saturatedWorld_fields)

lemma drainedWorld_fields:
  "maxPending drainedWorld = 1" "ctx drainedWorld = 0"
  "group drainedWorld = Some 0" "groupCtx drainedWorld = Some 1"
  "nextCtx drainedWorld = 2" "nextGroup drainedWorld = 1"
  "ctxErr drainedWorld = (\<lambda>c. False)(1 := True)"
  "groups drainedWorld = [0 \<mapsto> \<lparr>gctx = 1, limit = Some 1, active = 0\<rparr>]"
  by (simp_all add: drainedWorld_def cancelledWorld_fields)

lemma Queue_ok_saturatedWorld: "Queue_ok 64 saturatedWorld"
  by (simp add: Queue_ok_def saturatedWorld_fields math_MaxInt_def)

lemma Queue_ok_cancelledWorld: "Queue_ok 64 cancelledWorld"
  by (simp add: Queue_ok_def cancelledWorld_fields math_MaxInt_def)

lemma Queue_ok_drainedWorld: "Queue_ok 64 drainedWorld"
  by (simp add: Queue_ok_def drainedWorld_fields math_MaxInt_def)

theorem TrySend_rejected_no_effect_witness:
  "TrySend 64 8 43 3 saturatedWorld = (Return False, saturatedWorld)
   \<and> pending (snd (TrySend 64 8 43 3 saturatedWorld)) = pending saturatedWorld
   \<and> events (snd (TrySend 64 8 43 3 saturatedWorld)) = events saturatedWorld
   \<and> receiptWg (snd (TrySend 64 8 43 3 saturatedWorld)) = receiptWg saturatedWorld"
proof -
  let ?q1 = "saturatedWorld\<lparr>receiptWg := Suc (receiptWg saturatedWorld)\<rparr>"
  have keep: "groupContext 64 ?q1 = (Return (group ?q1, Some 1), ?q1)"
    by (rule groupContext_keep) (simp_all add: saturatedWorld_fields)
  have r: "TrySend 64 8 43 3 saturatedWorld = (Return False, saturatedWorld)"
    unfolding TrySend_unfold keep
    by (simp add: saturatedWorld_fields atLimit_def)
  from TrySend_rejected_no_effect [OF r] r show ?thesis by simp
qed

theorem groupContext_lifecycle_witness:
  "Queue_ok 64 saturatedWorld
   \<and> groupContext 64 saturatedWorld = (Return (Some 0, Some 1), saturatedWorld)
   \<and> Queue_ok 64 cancelledWorld
   \<and> groupContext 64 cancelledWorld = (Block, cancelledWorld)
   \<and> Queue_ok 64 exampleWorld
   \<and> fst (groupContext 64 exampleWorld) = Return (Some 0, Some 1)
   \<and> ctxParent (snd (groupContext 64 exampleWorld)) 1 = Some 0
   \<and> groups (snd (groupContext 64 exampleWorld)) 0
        = Some \<lparr>gctx = 1, limit = Some 1, active = 0\<rparr>
   \<and> Queue_ok 64 drainedWorld
   \<and> fst (groupContext 64 drainedWorld) = Return (Some 1, Some 2)
   \<and> ctxParent (snd (groupContext 64 drainedWorld)) 2 = Some 0
   \<and> groups (snd (groupContext 64 drainedWorld)) 1
        = Some \<lparr>gctx = 2, limit = Some 1, active = 0\<rparr>"
proof -
  have "groupContext 64 saturatedWorld = (Return (Some 0, Some 1), saturatedWorld)"
    using groupContext_lifecycle [OF Queue_ok_saturatedWorld]
    by (simp add: saturatedWorld_fields)
  moreover have "groupContext 64 cancelledWorld = (Block, cancelledWorld)"
    using groupContext_lifecycle [OF Queue_ok_cancelledWorld]
    by (simp add: cancelledWorld_fields)
  moreover have "fst (groupContext 64 exampleWorld) = Return (Some 0, Some 1)
     \<and> ctxParent (snd (groupContext 64 exampleWorld)) 1 = Some 0
     \<and> groups (snd (groupContext 64 exampleWorld)) 0
          = Some \<lparr>gctx = 1, limit = Some 1, active = 0\<rparr>"
    using groupContext_lifecycle [OF Queue_ok_exampleWorld]
    by (simp add: exampleWorld_fields)
  moreover have "fst (groupContext 64 drainedWorld) = Return (Some 1, Some 2)
     \<and> ctxParent (snd (groupContext 64 drainedWorld)) 2 = Some 0
     \<and> groups (snd (groupContext 64 drainedWorld)) 1
          = Some \<lparr>gctx = 2, limit = Some 1, active = 0\<rparr>"
    using groupContext_lifecycle [OF Queue_ok_drainedWorld]
    by (simp add: drainedWorld_fields)
  ultimately show ?thesis
    using Queue_ok_saturatedWorld Queue_ok_cancelledWorld Queue_ok_exampleWorld
      Queue_ok_drainedWorld
    by simp
qed

subsection \<open>sendTx in the goroutine of an accepted Send\<close>

lemma Send_exampleWorld:
  "Send 64 7 42 3 exampleWorld =
     (Return (),
      exampleWorld\<lparr>receiptWg := 1, group := Some 0, groupCtx := Some 1,
        ctxErr := (\<lambda>c. False)(1 := False), ctxParent := [1 \<mapsto> 0], nextCtx := 2,
        groups := [0 \<mapsto> \<lparr>gctx = 1, limit = Some 1, active = 1\<rparr>], nextGroup := 1,
        events := [GoSendTx 0 1 7 42 3]\<rparr>)"
proof -
  let ?q1 = "exampleWorld\<lparr>receiptWg := Suc (receiptWg exampleWorld)\<rparr>"
  have dead: "case groupCtx ?q1 of None \<Rightarrow> True | Some c \<Rightarrow> ctxErr ?q1 c"
    by (simp add: exampleWorld_fields)
  have fin: "case group ?q1 of None \<Rightarrow> True
             | Some g \<Rightarrow> (\<exists>G. groups ?q1 g = Some G \<and> active G = 0)"
    by (simp add: exampleWorld_fields)
  have n: "int_of_uint64 64 (maxPending ?q1) = uint (maxPending ?q1)"
    by (rule int_of_uint64_exact) (simp add: exampleWorld_fields math_MaxInt_def)
  show ?thesis
    unfolding Send_unfold groupContext_install [OF dead fin n]
    by (simp add: exampleWorld_fields afterWait_def atLimit_def startGoroutine_def)
qed

lemma sentWorld_fields:
  "pending sentWorld = 0" "events sentWorld = [GoSendTx 0 1 7 42 3]"
  "receiptWg sentWorld = 1" "maxPending sentWorld = 1" "ctx sentWorld = 0"
  "txMgr sentWorld = exampleTxMgr"
  "group sentWorld = Some 0" "groupCtx sentWorld = Some 1"
  "nextCtx sentWorld = 2" "nextGroup sentWorld = 1"
  "ctxErr sentWorld = (\<lambda>c. False)(1 := False)"
  "groups sentWorld = [0 \<mapsto> \<lparr>gctx = 1, limit = Some 1, active = 1\<rparr>]"
  by (simp_all add: sentWorld_def Send_exampleWorld exampleWorld_fields)

lemma Send_exampleWorld_sentWorld: "Send 64 7 42 3 exampleWorld = (Return (), sentWorld)"
  unfolding sentWorld_def Send_exampleWorld by simp

lemma txMgr_sentWorld: "txMgr sentWorld 1 42 = Some (142, None)"
  by (simp add: sentWorld_fields exampleTxMgr_def)

lemma sendTx_sentWorld:
  "sendTx 1 7 42 3 sentWorld =
     (Return None,
      sentWorld\<lparr>events :=
        [GoSendTx 0 1 7 42 3, PendingChanged 1, TxMgrSend 1 42,
         GoNotify 3 \<lparr>ID = 7, Receipt = 142, Err = None\<rparr>, PendingChanged 0]\<rparr>)"
  unfolding sendTx_returns [OF txMgr_sentWorld] by (simp add: sentWorld_fields)

theorem sendTx_order_witness:
  "Send 64 7 42 3 exampleWorld = (Return (), sentWorld)
   \<and> events sentWorld = [GoSendTx 0 1 7 42 3]
   \<and> txMgr sentWorld 1 42 = Some (142, None)
   \<and> sendTx 1 7 42 3 sentWorld =
       (Return None,
        sentWorld\<lparr>events :=
          [GoSendTx 0 1 7 42 3, PendingChanged 1, TxMgrSend 1 42,
           GoNotify 3 \<lparr>ID = 7, Receipt = 142, Err = None\<rparr>, PendingChanged 0]\<rparr>)"
proof -
  have "sendTx 1 7 42 3 sentWorld =
       (Return None,
        sentWorld\<lparr>events :=
          [GoSendTx 0 1 7 42 3, PendingChanged 1, TxMgrSend 1 42,
           GoNotify 3 \<lparr>ID = 7, Receipt = 142, Err = None\<rparr>, PendingChanged 0]\<rparr>)"
    unfolding sendTx_order [OF txMgr_sentWorld] by (simp add: sentWorld_fields)
  then show ?thesis
    using Send_exampleWorld_sentWorld txMgr_sentWorld sentWorld_fields(2) by simp
qed

text \<open>
  C5, with the order of the specification (the second call of \<open>pendingChanged\<close> before
  the hand-over to the delivery goroutine), does not hold: for the goroutine started by
  an accepted \<open>Send\<close> on the example queue, the events of \<open>sendTx\<close> are not in that order.
\<close>

theorem sendTx_claimed_order_counterexample:
  "Send 64 7 42 3 exampleWorld = (Return (), sentWorld)
   \<and> events sentWorld = [GoSendTx 0 1 7 42 3]
   \<and> events (snd (sendTx 1 7 42 3 sentWorld)) \<noteq>
       events sentWorld @
         [PendingChanged 1, TxMgrSend 1 42, PendingChanged 0,
          GoNotify 3 \<lparr>ID = 7, Receipt = 142, Err = None\<rparr>]"
proof -
  have "events (snd (sendTx 1 7 42 3 sentWorld)) \<noteq>
       events sentWorld @
         [PendingChanged 1, TxMgrSend 1 42, PendingChanged 0,
          GoNotify 3 \<lparr>ID = 7, Receipt = 142, Err = None\<rparr>]"
    unfolding sendTx_sentWorld by (simp add: sentWorld_fields)
  then show ?thesis
    using Send_exampleWorld_sentWorld sentWorld_fields(2) by simp
qed

subsection \<open>Concurrent callers across a replacement of the group\<close>

lemma race0_fields:
  "pending race0 = 0" "events race0 = []" "receiptWg race0 = 0"
  "txMgr race0 = raceTxMgr" "maxPending race0 = 1" "ctx race0 = 0"
  "group race0 = None" "groupCtx race0 = None"
  "nextCtx race0 = 1" "nextGroup race0 = 0"
  "ctxErr race0 = (\<lambda>c. False)" "groups race0 = Map.empty"
  by (simp_all add: race0_def initWorld_def NewQueue_def Let_def math_MaxInt_def
        Queue.defs world.defs)

lemma Queue_ok_race0: "Queue_ok 64 race0"
  unfolding race0_def by (rule Queue_ok_initWorld) simp

lemma race_step1:
  "groupContext 64 (race0\<lparr>receiptWg := Suc (receiptWg race0)\<rparr>) = (Return (Some 0, Some 1), race1)"
  "pending race1 = 0" "events race1 = []" "receiptWg race1 = 1"
  "txMgr race1 = raceTxMgr" "maxPending race1 = 1" "ctx race1 = 0"
  "group race1 = Some 0" "groupCtx race1 = Some 1"
  "nextCtx race1 = 2" "nextGroup race1 = 1"
  "ctxErr race1 = (\<lambda>c. False)(1 := False)"
  "groups race1 = [0 \<mapsto> \<lparr>gctx = 1, limit = Some 1, active = 0\<rparr>]"
proof -
  let ?q1 = "race0\<lparr>receiptWg := Suc (receiptWg race0)\<rparr>"
  have dead: "case groupCtx ?q1 of None \<Rightarrow> True | Some c \<Rightarrow> ctxErr ?q1 c"
    by (simp add: race0_fields)
  have fin: "case group ?q1 of None \<Rightarrow> True
             | Some g \<Rightarrow> (\<exists>G. groups ?q1 g = Some G \<and> active G = 0)"
    by (simp add: race0_fields)
  have n: "int_of_uint64 64 (maxPending ?q1) = uint (maxPending ?q1)"
    by (rule int_of_uint64_exact) (simp add: race0_fields math_MaxInt_def)
  note inst = groupContext_install [OF dead fin n]
  show "groupContext 64 ?q1 = (Return (Some 0, Some 1), race1)"
    unfolding race1_def inst by (simp add: race0_fields)
  show "pending race1 = 0" "events race1 = []" "receiptWg race1 = 1"
  "txMgr race1 = raceTxMgr" "maxPending race1 = 1" "ctx race1 = 0"
  "group race1 = Some 0" "groupCtx race1 = Some 1"
  "nextCtx race1 = 2" "nextGroup race1 = 1"
  "ctxErr race1 = (\<lambda>c. False)(1 := False)"
  "groups race1 = [0 \<mapsto> \<lparr>gctx = 1, limit = Some 1, active = 0\<rparr>]"
    unfolding race1_def inst by (simp_all add: race0_fields afterWait_def)
qed

lemma race_step2:
  "Send 64 2 1 9 race1 = (Return (), race2)"
  "pending race2 = 0" "events race2 = [GoSendTx 0 1 2 1 9]" "receiptWg race2 = 2"
  "txMgr race2 = raceTxMgr" "maxPending race2 = 1" "ctx race2 = 0"
  "group race2 = Some 0" "groupCtx race2 = Some 1"
  "nextCtx race2 = 2" "nextGroup race2 = 1"
  "ctxErr race2 = (\<lambda>c. False)(1 := False)"
  "groups race2 = [0 \<mapsto> \<lparr>gctx = 1, limit = Some 1, active = 1\<rparr>]"
proof -
  let ?q1 = "race1\<lparr>receiptWg := Suc (receiptWg race1)\<rparr>"
  have keep: "groupContext 64 ?q1 = (Return (group ?q1, Some 1), ?q1)"
    by (rule groupContext_keep) (simp_all add: race_step1)
  have s: "Send 64 2 1 9 race1 =
      (Return (), startGoroutine 0 \<lparr>gctx = 1, limit = Some 1, active = 0\<rparr> 1 2 1 9 ?q1)"
    unfolding Send_unfold keep by (simp add: race_step1 atLimit_def)
  show "Send 64 2 1 9 race1 = (Return (), race2)"
    unfolding race2_def s by simp
  show "pending race2 = 0" "events race2 = [GoSendTx 0 1 2 1 9]" "receiptWg race2 = 2"
  "txMgr race2 = raceTxMgr" "maxPending race2 = 1" "ctx race2 = 0"
  "group race2 = Some 0" "groupCtx race2 = Some 1"
  "nextCtx race2 = 2" "nextGroup race2 = 1"
  "ctxErr race2 = (\<lambda>c. False)(1 := False)"
  "groups race2 = [0 \<mapsto> \<lparr>gctx = 1, limit = Some 1, active = 1\<rparr>]"
    unfolding race2_def s by (simp_all add: startGoroutine_def race_step1)
qed


lemma race_step3:
  "sendTx 1 2 1 9 race2 = (Return (Some 0), snd (sendTx 1 2 1 9 race2))"
  "pending race3 = 0"
  "events race3 = [GoSendTx 0 1 2 1 9, PendingChanged 1, TxMgrSend 1 1,
                   GoNotify 9 \<lparr>ID = 2, Receipt = 0, Err = Some 0\<rparr>, PendingChanged 0]"
  "receiptWg race3 = 2"
  "txMgr race3 = raceTxMgr" "maxPending race3 = 1" "ctx race3 = 0"
  "group race3 = Some 0" "groupCtx race3 = Some 1"
  "nextCtx race3 = 2" "nextGroup race3 = 1"
  "ctxErr race3 = (\<lambda>c. False)(1 := True)"
  "groups race3 = [0 \<mapsto> \<lparr>gctx = 1, limit = Some 1, active = 0\<rparr>]"
proof -
  have t: "txMgr race2 1 1 = Some (0, Some 0)"
    by (simp add: race_step2 raceTxMgr_def)
  note s = sendTx_returns [OF t, of 2 9]
  show "sendTx 1 2 1 9 race2 = (Return (Some 0), snd (sendTx 1 2 1 9 race2))"
    unfolding s by simp
  show "pending race3 = 0"
  "events race3 = [GoSendTx 0 1 2 1 9, PendingChanged 1, TxMgrSend 1 1,
                   GoNotify 9 \<lparr>ID = 2, Receipt = 0, Err = Some 0\<rparr>, PendingChanged 0]"
  "receiptWg race3 = 2"
  "txMgr race3 = raceTxMgr" "maxPending race3 = 1" "ctx race3 = 0"
  "group race3 = Some 0" "groupCtx race3 = Some 1"
  "nextCtx race3 = 2" "nextGroup race3 = 1"
  "ctxErr race3 = (\<lambda>c. False)(1 := True)"
  "groups race3 = [0 \<mapsto> \<lparr>gctx = 1, limit = Some 1, active = 0\<rparr>]"
    unfolding race3_def s by (simp_all add: Group_done_def race_step2)
qed

lemma race_step4:
  "Send 64 3 2 9 race3 = (Return (), race4)"
  "pending race4 = 0"
  "events race4 = [GoSendTx 0 1 2 1 9, PendingChanged 1, TxMgrSend 1 1,
                   GoNotify 9 \<lparr>ID = 2, Receipt = 0, Err = Some 0\<rparr>, PendingChanged 0,
                   GoSendTx 1 2 3 2 9]"
  "txMgr race4 = raceTxMgr" "maxPending race4 = 1"
  "group race4 = Some 1" "groupCtx race4 = Some 2"
  "groups race4 = [0 \<mapsto> \<lparr>gctx = 1, limit = Some 1, active = 0\<rparr>,
                   1 \<mapsto> \<lparr>gctx = 2, limit = Some 1, active = 1\<rparr>]"
proof -
  let ?q1 = "race3\<lparr>receiptWg := Suc (receiptWg race3)\<rparr>"
  have dead: "case groupCtx ?q1 of None \<Rightarrow> True | Some c \<Rightarrow> ctxErr ?q1 c"
    by (simp add: race_step3)
  have fin: "case group ?q1 of None \<Rightarrow> True
             | Some g \<Rightarrow> (\<exists>G. groups ?q1 g = Some G \<and> active G = 0)"
    by (simp add: race_step3)
  have n: "int_of_uint64 64 (maxPending ?q1) = uint (maxPending ?q1)"
    by (rule int_of_uint64_exact) (simp add: race_step3 math_MaxInt_def)
  note inst = groupContext_install [OF dead fin n]
  have s: "Send 64 3 2 9 race3 =
      (Return (), startGoroutine 1 \<lparr>gctx = 2, limit = Some 1, active = 0\<rparr> 2 3 2 9
         (snd (groupContext 64 ?q1)))"
    unfolding Send_unfold inst by (simp add: race_step3 atLimit_def)
  show "Send 64 3 2 9 race3 = (Return (), race4)"
    unfolding race4_def s by simp
  show "pending race4 = 0"
  "events race4 = [GoSendTx 0 1 2 1 9, PendingChanged 1, TxMgrSend 1 1,
                   GoNotify 9 \<lparr>ID = 2, Receipt = 0, Err = Some 0\<rparr>, PendingChanged 0,
                   GoSendTx 1 2 3 2 9]"
  "txMgr race4 = raceTxMgr" "maxPending race4 = 1"
  "group race4 = Some 1" "groupCtx race4 = Some 2"
  "groups race4 = [0 \<mapsto> \<lparr>gctx = 1, limit = Some 1, active = 0\<rparr>,
                   1 \<mapsto> \<lparr>gctx = 2, limit = Some 1, active = 1\<rparr>]"
    unfolding race4_def s inst by (simp_all add: startGoroutine_def race_step3)
qed

lemma race_step5:
  "sendTx 2 3 2 9 race4 = (Block, race5)"
  "pending race5 = 1"
  "events race5 = [GoSendTx 0 1 2 1 9, PendingChanged 1, TxMgrSend 1 1,
                   GoNotify 9 \<lparr>ID = 2, Receipt = 0, Err = Some 0\<rparr>, PendingChanged 0,
                   GoSendTx 1 2 3 2 9, PendingChanged 1, TxMgrSend 2 2]"
  "txMgr race5 = raceTxMgr" "maxPending race5 = 1"
  "group race5 = Some 1" "groupCtx race5 = Some 2"
  "groups race5 = [0 \<mapsto> \<lparr>gctx = 1, limit = Some 1, active = 0\<rparr>,
                   1 \<mapsto> \<lparr>gctx = 2, limit = Some 1, active = 1\<rparr>]"
proof -
  have s: "sendTx 2 3 2 9 race4 =
     (Block, race4\<lparr>pending := pending race4 + 1,
               events := events race4 @ [PendingChanged (pending race4 + 1), TxMgrSend 2 2]\<rparr>)"
    by (rule sendTx_blocks) (simp add: race_step4 raceTxMgr_def)
  show "sendTx 2 3 2 9 race4 = (Block, race5)"
    unfolding race5_def s by simp
  show "pending race5 = 1"
  "events race5 = [GoSendTx 0 1 2 1 9, PendingChanged 1, TxMgrSend 1 1,
                   GoNotify 9 \<lparr>ID = 2, Receipt = 0, Err = Some 0\<rparr>, PendingChanged 0,
                   GoSendTx 1 2 3 2 9, PendingChanged 1, TxMgrSend 2 2]"
  "txMgr race5 = raceTxMgr" "maxPending race5 = 1"
  "group race5 = Some 1" "groupCtx race5 = Some 2"
  "groups race5 = [0 \<mapsto> \<lparr>gctx = 1, limit = Some 1, active = 0\<rparr>,
                   1 \<mapsto> \<lparr>gctx = 2, limit = Some 1, active = 1\<rparr>]"
    unfolding race5_def s by (simp_all add: race_step4)
qed

lemma race_step6:
  "Group_Go 0 1 1 3 9 race5 = (Return (), race6)"
  "pending race6 = 1"
  "events race6 = [GoSendTx 0 1 2 1 9, PendingChanged 1, TxMgrSend 1 1,
                   GoNotify 9 \<lparr>ID = 2, Receipt = 0, Err = Some 0\<rparr>, PendingChanged 0,
                   GoSendTx 1 2 3 2 9, PendingChanged 1, TxMgrSend 2 2,
                   GoSendTx 0 1 1 3 9]"
  "txMgr race6 = raceTxMgr" "maxPending race6 = 1"
proof -
  have s: "Group_Go 0 1 1 3 9 race5 =
     (Return (), startGoroutine 0 \<lparr>gctx = 1, limit = Some 1, active = 0\<rparr> 1 1 3 9 race5)"
    by (simp add: Group_Go_def race_step5 atLimit_def)
  show "Group_Go 0 1 1 3 9 race5 = (Return (), race6)"
    unfolding race6_def s by simp
  show "pending race6 = 1"
  "events race6 = [GoSendTx 0 1 2 1 9, PendingChanged 1, TxMgrSend 1 1,
                   GoNotify 9 \<lparr>ID = 2, Receipt = 0, Err = Some 0\<rparr>, PendingChanged 0,
                   GoSendTx 1 2 3 2 9, PendingChanged 1, TxMgrSend 2 2,
                   GoSendTx 0 1 1 3 9]"
  "txMgr race6 = raceTxMgr" "maxPending race6 = 1"
    unfolding race6_def s by (simp_all add: startGoroutine_def race_step5)
qed

lemma race_step7:
  "sendTx 1 1 3 9 race6 = (Block, race7)"
  "pending race7 = 2"
  "events race7 = [GoSendTx 0 1 2 1 9, PendingChanged 1, TxMgrSend 1 1,
                   GoNotify 9 \<lparr>ID = 2, Receipt = 0, Err = Some 0\<rparr>, PendingChanged 0,
                   GoSendTx 1 2 3 2 9, PendingChanged 1, TxMgrSend 2 2,
                   GoSendTx 0 1 1 3 9, PendingChanged 2, TxMgrSend 1 3]"
  "maxPending race7 = 1"
proof -
  have s: "sendTx 1 1 3 9 race6 =
     (Block, race6\<lparr>pending := pending race6 + 1,
               events := events race6 @ [PendingChanged (pending race6 + 1), TxMgrSend 1 3]\<rparr>)"
    by (rule sendTx_blocks) (simp add: race_step6 raceTxMgr_def)
  show "sendTx 1 1 3 9 race6 = (Block, race7)"
    unfolding race7_def s by simp
  show "pending race7 = 2"
  "events race7 = [GoSendTx 0 1 2 1 9, PendingChanged 1, TxMgrSend 1 1,
                   GoNotify 9 \<lparr>ID = 2, Receipt = 0, Err = Some 0\<rparr>, PendingChanged 0,
                   GoSendTx 1 2 3 2 9, PendingChanged 1, TxMgrSend 2 2,
                   GoSendTx 0 1 1 3 9, PendingChanged 2, TxMgrSend 1 3]"
  "maxPending race7 = 1"
    unfolding race7_def s by (simp_all add: race_step6)
qed

text \<open>
  C1 fails on this schedule. The queue has \<open>maxPending = 1\<close>. Caller A is between
  \<open>groupContext()\<close> and \<open>group.Go\<close> while B's send fails, which cancels the group's
  context, and C's \<open>Send\<close> replaces the group: \<open>Wait\<close> on the old group returns at once,
  since A's goroutine is not started yet. A's \<open>group.Go\<close> then starts a goroutine on the
  old group, which has a free slot. At the end two calls of \<open>txMgr.Send\<close> are executing,
  and \<open>pendingChanged\<close> has been called with 2.
\<close>

theorem Send_race_exceeds_maxPending:
  "maxPending race0 = 1
   \<and> groupContext 64 (race0\<lparr>receiptWg := Suc (receiptWg race0)\<rparr>)
        = (Return (Some 0, Some 1), race1)
   \<and> Send 64 2 1 9 race1 = (Return (), race2)
   \<and> fst (sendTx 1 2 1 9 race2) = Return (Some 0)
   \<and> race3 = Group_done 0 (Some 0) (snd (sendTx 1 2 1 9 race2))
   \<and> Send 64 3 2 9 race3 = (Return (), race4)
   \<and> sendTx 2 3 2 9 race4 = (Block, race5)
   \<and> Group_Go 0 1 1 3 9 race5 = (Return (), race6)
   \<and> sendTx 1 1 3 9 race6 = (Block, race7)
   \<and> maxPending race7 = 1
   \<and> pending race7 = 2
   \<and> executing (events race7) = 2
   \<and> last (butlast (events race7)) = PendingChanged 2"
proof (intro conjI)
  show "maxPending race0 = 1" by (rule race0_fields)
  show "groupContext 64 (race0\<lparr>receiptWg := Suc (receiptWg race0)\<rparr>)
        = (Return (Some 0, Some 1), race1)" by (rule race_step1)
  show "Send 64 2 1 9 race1 = (Return (), race2)" by (rule race_step2)
  show "fst (sendTx 1 2 1 9 race2) = Return (Some 0)"
    using race_step3(1) by (metis fst_conv)
  show "race3 = Group_done 0 (Some 0) (snd (sendTx 1 2 1 9 race2))" by (rule race3_def)
  show "Send 64 3 2 9 race3 = (Return (), race4)" by (rule race_step4)
  show "sendTx 2 3 2 9 race4 = (Block, race5)" by (rule race_step5)
  show "Group_Go 0 1 1 3 9 race5 = (Return (), race6)" by (rule race_step6)
  show "sendTx 1 1 3 9 race6 = (Block, race7)" by (rule race_step7)
  show "maxPending race7 = 1" by (rule race_step7)
  show "pending race7 = 2" by (rule race_step7)
  show "executing (events race7) = 2" by (simp add: race_step7 executing_def)
  show "last (butlast (events race7)) = PendingChanged 2" by (simp add: race_step7)
qed

subsection \<open>Wait and the delivery of results\<close>

lemma accepted_append [simp]: "accepted (xs @ ys) = accepted xs + accepted ys"
  by (simp add: accepted_def)

lemma notified_append [simp]: "notified (xs @ ys) = notified xs + notified ys"
  by (simp add: notified_def)

lemma delivered_append [simp]: "delivered (xs @ ys) = delivered xs + delivered ys"
  by (simp add: delivered_def)

lemma accepted_simps [simp]:
  "accepted [] = {#}" "accepted (e # evs) = acceptedBy e + accepted evs"
  by (simp_all add: accepted_def)

lemma notified_simps [simp]:
  "notified [] = {#}" "notified (e # evs) = notifiedBy e + notified evs"
  by (simp_all add: notified_def)

lemma delivered_simps [simp]:
  "delivered [] = {#}" "delivered (e # evs) = deliveredBy e + delivered evs"
  by (simp_all add: delivered_def)
















lemma Queue_ok_ctxErr [simp]:
  "Queue_ok intSize (q\<lparr>ctxErr := f\<rparr>) = Queue_ok intSize q"
  by (simp add: Queue_ok_def cong: option.case_cong)

lemma Queue_linked_ctxErr [simp]: "Queue_linked (q\<lparr>ctxErr := f\<rparr>) = Queue_linked q"
  by (simp add: Queue_linked_def cong: option.case_cong)

lemma Queue_linked_receiptWg [simp]: "Queue_linked (q\<lparr>receiptWg := n\<rparr>) = Queue_linked q"
  by (simp add: Queue_linked_def cong: option.case_cong)































end
